theory Spec2Isabelle
  imports Main "HOL-Library.Sublist"
begin

section \<open>Python values and string operations used by app.py\<close>

text \<open>
  A cell of a ticket row is a text value, the floating-point NaN that pandas uses for a
  missing cell, or Python's None. Strings are lists of \<^typ>\<open>char\<close>: one \<^typ>\<open>char\<close>
  is one code point in the range 0..255, and \<open>str.lower\<close>, \<open>str.isspace\<close> are Python's
  functions on that range. The three reference lists hold text entries
  (\<open>rca.lower()\<close> at line 75 requires it).
\<close>

datatype pyval = PStr string | PNaN | PNone

datatype error = KeyError string | IndexError

text \<open>\<open>str(x)\<close>, also what an f-string field \<open>{x}\<close> prints.\<close>

definition py_str :: "pyval \<Rightarrow> string" where
  "py_str v = (case v of PStr s \<Rightarrow> s | PNaN \<Rightarrow> ''nan'' | PNone \<Rightarrow> ''None'')"

text \<open>\<open>pd.isna(x)\<close> on a scalar.\<close>

definition pd_isna :: "pyval \<Rightarrow> bool" where
  "pd_isna v = (case v of PStr s \<Rightarrow> False | PNaN \<Rightarrow> True | PNone \<Rightarrow> True)"

text \<open>\<open>str.isspace\<close> on one character: TAB..CR, FS..US, space, NEL, NBSP.\<close>

definition is_space :: "char \<Rightarrow> bool" where
  "is_space c =
     (let n = (of_char c :: nat)
      in (9 \<le> n \<and> n \<le> 13) \<or> (28 \<le> n \<and> n \<le> 32) \<or> n = 133 \<or> n = 160)"

text \<open>\<open>s.strip()\<close>: whitespace removed at both ends.\<close>

definition strip :: "string \<Rightarrow> string" where
  "strip s = rev (dropWhile is_space (rev (dropWhile is_space s)))"

text \<open>\<open>s.lower()\<close>: A..Z and the upper-case letters 0xC0..0xDE (0xD7 is the
  multiplication sign) move up by 32.\<close>

definition lower_char :: "char \<Rightarrow> char" where
  "lower_char c =
     (let n = (of_char c :: nat)
      in if (65 \<le> n \<and> n \<le> 90) \<or> (192 \<le> n \<and> n \<le> 222 \<and> n \<noteq> 215)
         then char_of (n + 32) else c)"

definition lower :: "string \<Rightarrow> string" where
  "lower s = map lower_char s"

text \<open>\<open>sub in s\<close> on strings: \<open>sub\<close> occurs in \<open>s\<close> as a contiguous substring.\<close>

fun contains :: "string \<Rightarrow> string \<Rightarrow> bool" where
  "contains sub [] = (sub = [])"
| "contains sub (c # cs) = (prefix sub (c # cs) \<or> contains sub cs)"

text \<open>\<open>s.split(sep)\<close> for a non-empty separator: the occurrences of \<open>sep\<close> are found
  from the left, without overlap. (The source only splits on \<open>" - "\<close>; Python raises
  ValueError for an empty separator, which never arises here.)\<close>

function split_on :: "string \<Rightarrow> string \<Rightarrow> string list" where
  "split_on sep [] = [[]]"
| "split_on sep (c # cs) =
     (if sep \<noteq> [] \<and> prefix sep (c # cs)
      then [] # split_on sep (drop (length sep) (c # cs))
      else (case split_on sep cs of
              p # ps \<Rightarrow> (c # p) # ps
            | [] \<Rightarrow> [[c]]))"
  by pat_completeness auto
termination
  by (relation "measure (\<lambda>(sep, s). length s)") auto

text \<open>\<open>sep.join(parts)\<close>, the inverse of the split.\<close>

fun join :: "string \<Rightarrow> string list \<Rightarrow> string" where
  "join sep [] = []"
| "join sep [p] = p"
| "join sep (p # q # ps) = p @ sep @ join sep (q # ps)"

section \<open>is_valid_cause (lines 7-23)\<close>

definition is_valid_cause :: "pyval \<Rightarrow> string list \<Rightarrow> string list \<Rightarrow> bool" where
  "is_valid_cause cause_text service_offerings canonical_categories =
     (if pd_isna cause_text \<or> strip (py_str cause_text) = [] then False
      else (case map strip (split_on '' - '' (py_str cause_text)) of
              [service, category, rca] \<Rightarrow>
                if service \<notin> set service_offerings then False
                else if category \<notin> set canonical_categories then False
                else if rca = [] then False
                else True
            | _ \<Rightarrow> False))"

section \<open>ai_fallback_suggest (lines 29-36)\<close>

text \<open>\<open>canonical_categories[0]\<close> raises IndexError on the empty list.\<close>

definition ai_fallback_suggest :: "string \<Rightarrow> string list \<Rightarrow> error + (string \<times> string)" where
  "ai_fallback_suggest text_blob canonical_categories =
     (if contains ''resolved'' text_blob \<or> contains ''fixed'' text_blob
      then Inr (''Configuration issue'', ''Resolved after configuration check'')
      else if contains ''working'' text_blob \<or> contains ''no issue'' text_blob
      then Inr (''Configuration issue'', ''No fault found'')
      else (case canonical_categories of
              [] \<Rightarrow> Inl IndexError
            | c # _ \<Rightarrow> Inr (c, ''Root cause under investigation'')))"

section \<open>process_ticket (lines 42-100)\<close>

text \<open>A ticket row maps column names to cells; \<open>ticket_row[k]\<close> raises KeyError for a
  column that is not there.\<close>

type_synonym row = "string \<rightharpoonup> pyval"

definition row_get :: "row \<Rightarrow> string \<Rightarrow> error + pyval" where
  "row_get ticket_row k = (case ticket_row k of None \<Rightarrow> Inl (KeyError k) | Some v \<Rightarrow> Inr v)"

text \<open>Lines 51-55: the lower-cased text of the three free-text cells.\<close>

definition text_blob_of :: "pyval \<Rightarrow> pyval \<Rightarrow> pyval \<Rightarrow> string" where
  "text_blob_of short_description description work_notes =
     lower (py_str short_description @ '' '' @ py_str description @ '' '' @ py_str work_notes)"

text \<open>Lines 57-67: \<open>any(w in text_blob for w in [...])\<close>, rule by rule.\<close>

definition rule_category :: "string \<Rightarrow> string" where
  "rule_category text_blob =
     (if list_ex (\<lambda>w. contains w text_blob) [''login'', ''access'', ''unauthorized'']
      then ''Access issue''
      else if list_ex (\<lambda>w. contains w text_blob) [''offline'', ''down'', ''not reachable'']
      then ''Offline issue''
      else if list_ex (\<lambda>w. contains w text_blob) [''timeout'', ''network'', ''connectivity'']
      then ''Connectivity issue''
      else if list_ex (\<lambda>w. contains w text_blob) [''screen'', ''display'', ''black'']
      then ''Display issue''
      else ''Configuration issue'')"

text \<open>Lines 69-79: the loop over the catalog, which stops at the first phrase whose
  lower-cased form occurs in the text; the result is \<open>(matched_rca, confidence, reason)\<close>.\<close>

fun match_rca :: "string \<Rightarrow> string list \<Rightarrow> string \<times> int \<times> string" where
  "match_rca text_blob [] = (''Under analysis'', 50, ''Rule-based default'')"
| "match_rca text_blob (rca # rest) =
     (if contains (lower rca) text_blob
      then (rca, 90, ''Matched existing RCA: '' @ rca)
      else match_rca text_blob rest)"

text \<open>Lines 69-88: the loop, then the phrase made from the work notes when
  \<open>matched_rca\<close> is still (or again) \<open>"Under analysis"\<close>.\<close>

definition resolve_rca :: "string \<Rightarrow> string list \<Rightarrow> pyval \<Rightarrow> string \<times> int \<times> string" where
  "resolve_rca text_blob rca_list work_notes =
     (case match_rca text_blob rca_list of
        (matched_rca, confidence, reason) \<Rightarrow>
          if matched_rca = ''Under analysis''
          then (let new_rca = strip (py_str work_notes);
                    new_rca = (if new_rca = [] \<or> lower new_rca = ''nan''
                               then ''Root cause under investigation'' else new_rca)
                in (take 50 new_rca, 60, ''New RCA created from work notes''))
          else (matched_rca, confidence, reason))"

text \<open>Lines 57-96 on a text blob: the category, the phrase, the confidence and the reason
  that line 98 composes and line 100 returns.\<close>

definition decide :: "string \<Rightarrow> string list \<Rightarrow> string list \<Rightarrow> pyval
    \<Rightarrow> error + (string \<times> string \<times> int \<times> string)" where
  "decide text_blob rca_list canonical_categories work_notes =
     (let category = rule_category text_blob
      in case resolve_rca text_blob rca_list work_notes of
           (matched_rca, confidence, reason) \<Rightarrow>
             if confidence < 75
             then (case ai_fallback_suggest text_blob canonical_categories of
                     Inl e \<Rightarrow> Inl e
                   | Inr (ai_category, ai_rca) \<Rightarrow>
                       Inr (ai_category, ai_rca, 70, ''AI fallback used''))
             else Inr (category, matched_rca, confidence, reason))"

text \<open>Line 98: the f-string.\<close>

definition compose_cause :: "pyval \<Rightarrow> string \<Rightarrow> string \<Rightarrow> string" where
  "compose_cause service_offering category matched_rca =
     py_str service_offering @ '' - '' @ category @ '' - '' @ matched_rca"

text \<open>The result is Python's triple \<open>(cause, confidence, reason)\<close>, with None for the
  first two when the ticket is skipped. The columns are read in the order of the source;
  line 83 reads \<open>work_notes\<close> a second time, with the value line 54 has read.\<close>

type_synonym outcome = "string option \<times> int option \<times> string"

definition process_ticket :: "row \<Rightarrow> string list \<Rightarrow> string list \<Rightarrow> string list
    \<Rightarrow> error + outcome" where
  "process_ticket ticket_row rca_list service_offerings canonical_categories =
     (case row_get ticket_row ''service_offering'' of Inl e \<Rightarrow> Inl e
      | Inr service_offering \<Rightarrow>
     (case row_get ticket_row ''existing_cause'' of Inl e \<Rightarrow> Inl e
      | Inr existing_cause \<Rightarrow>
     if is_valid_cause existing_cause service_offerings canonical_categories
     then Inr (None, None, ''Skipped (already valid)'')
     else
     (case row_get ticket_row ''short_description'' of Inl e \<Rightarrow> Inl e
      | Inr short_description \<Rightarrow>
     (case row_get ticket_row ''description'' of Inl e \<Rightarrow> Inl e
      | Inr description \<Rightarrow>
     (case row_get ticket_row ''work_notes'' of Inl e \<Rightarrow> Inl e
      | Inr work_notes \<Rightarrow>
     (case decide (text_blob_of short_description description work_notes)
             rca_list canonical_categories work_notes of
        Inl e \<Rightarrow> Inl e
      | Inr (category, matched_rca, confidence, reason) \<Rightarrow>
          Inr (Some (compose_cause service_offering category matched_rca),
               Some confidence, reason)))))))"

section \<open>The caller's write-back (lines 139-150 and 172-180)\<close>

text \<open>\<open>if cause:\<close> holds for a non-empty string; only then is the row's
  \<open>existing_cause\<close> overwritten.\<close>

definition write_back :: "row \<Rightarrow> outcome \<Rightarrow> row" where
  "write_back ticket_row out =
     (case out of
        (Some cause, confidence, reason) \<Rightarrow>
          if cause \<noteq> [] then ticket_row(''existing_cause'' \<mapsto> PStr cause) else ticket_row
      | (None, confidence, reason) \<Rightarrow> ticket_row)"

definition run_ticket :: "row \<Rightarrow> string list \<Rightarrow> string list \<Rightarrow> string list
    \<Rightarrow> error + (row \<times> outcome)" where
  "run_ticket ticket_row rca_list service_offerings canonical_categories =
     (case process_ticket ticket_row rca_list service_offerings canonical_categories of
        Inl e \<Rightarrow> Inl e
      | Inr out \<Rightarrow> Inr (write_back ticket_row out, out))"

text \<open>A row that has the five columns process_ticket reads.\<close>

definition ticket :: "pyval \<Rightarrow> pyval \<Rightarrow> pyval \<Rightarrow> pyval \<Rightarrow> pyval \<Rightarrow> row" where
  "ticket service_offering existing_cause short_description description work_notes =
     [''service_offering'' \<mapsto> service_offering,
      ''existing_cause'' \<mapsto> existing_cause,
      ''short_description'' \<mapsto> short_description,
      ''description'' \<mapsto> description,
      ''work_notes'' \<mapsto> work_notes]"

section \<open>Example data\<close>

text \<open>The ticket of the end-to-end example: a laptop login problem, resolved after a
  password reset, with no cause recorded yet.\<close>

definition login_ticket :: row where
  "login_ticket =
     ticket (PStr ''Laptop'') (PStr []) (PStr [])
       (PStr ''Unable to login, access denied'')
       (PStr ''issue resolved after password reset'')"

text \<open>A printer ticket whose text has none of the fallback's four keywords.\<close>

definition printer_ticket :: row where
  "printer_ticket =
     ticket (PStr ''Printer'') (PStr []) (PStr ''Paper jam'')
       (PStr ''Tray 2 jammed'') (PStr ''Cleared tray'')"

text \<open>The login ticket once its cause has been written back.\<close>

definition valid_ticket :: row where
  "valid_ticket =
     ticket (PStr ''Laptop'')
       (PStr ''Laptop - Configuration issue - Resolved after configuration check'')
       (PStr []) (PStr ''Unable to login, access denied'')
       (PStr ''issue resolved after password reset'')"

text \<open>Work notes of 80 characters: a short note padded with spaces, and a long note.\<close>

definition padded_notes :: string where
  "padded_notes = ''Rebooted router'' @ replicate 65 (CHR '' '')"

definition long_notes :: string where
  "long_notes =
     ''  Replaced the failed power supply unit and confirmed the server boots normally.''"

text \<open>A ticket whose service offering contains the separator, and one whose service
  offering ends in a space.\<close>

definition mail_ticket :: row where
  "mail_ticket =
     ticket (PStr ''Email - Outlook'') (PStr []) (PStr ''Mailbox full'')
       (PStr ''Cannot send mail'') (PStr ''Archive enabled, fixed'')"

definition padded_ticket :: row where
  "padded_ticket =
     ticket (PStr ''Laptop '') (PStr []) (PStr [])
       (PStr ''Unable to login, access denied'')
       (PStr ''issue resolved after password reset'')"

text \<open>A ticket with a missing short description (NaN), the same ticket with an empty
  short description, and a row that has no work-notes column.\<close>

definition nan_ticket :: row where
  "nan_ticket =
     ticket (PStr ''Laptop'') (PStr []) PNaN (PStr ''Printer jam'') (PStr ''Replaced toner'')"

definition blank_ticket :: row where
  "blank_ticket =
     ticket (PStr ''Laptop'') (PStr []) (PStr []) (PStr ''Printer jam'')
       (PStr ''Replaced toner'')"

definition short_row :: row where
  "short_row =
     [''service_offering'' \<mapsto> PStr ''Laptop'', ''existing_cause'' \<mapsto> PStr [],
      ''short_description'' \<mapsto> PStr ''Printer jam'',
      ''description'' \<mapsto> PStr ''Printer jam'']"

section \<open>The string operations meet their descriptions\<close>


lemma contains_iff_sublist: "contains sub s \<longleftrightarrow> sublist sub s"
  by (induction s) (auto simp: sublist_Cons_right)

lemma split_on_not_Nil: "split_on sep s \<noteq> []"
  by (induction sep s rule: split_on.induct) (auto split: list.splits)

lemma join_split_on: "join sep (split_on sep s) = s"
proof (induction sep s rule: split_on.induct)
  case (1 sep)
  then show ?case by simp
next
  case (2 sep c cs)
  show ?case
  proof (cases "sep \<noteq> [] \<and> prefix sep (c # cs)")
    case True
    then obtain zs where z: "c # cs = sep @ zs" by (auto simp: prefix_def)
    then have d: "drop (length sep) (c # cs) = zs" by simp
    from 2(1) True have "join sep (split_on sep (drop (length sep) (c # cs))) = drop (length sep) (c # cs)"
      by simp
    with d have j: "join sep (split_on sep zs) = zs" by simp
    obtain q qs where q: "split_on sep zs = q # qs"
      using split_on_not_Nil [of sep zs] by (cases "split_on sep zs") auto
    have "split_on sep (c # cs) = [] # split_on sep zs"
      using True d by simp
    with q j z show ?thesis by simp
  next
    case False
    with 2(2) have j: "join sep (split_on sep cs) = cs" by simp
    obtain q qs where q: "split_on sep cs = q # qs"
      using split_on_not_Nil [of sep cs] by (cases "split_on sep cs") auto
    from False q have "split_on sep (c # cs) = (c # q) # qs" by simp
    with q j show ?thesis by (cases qs) auto
  qed
qed

section \<open>Facts about the catalog loop and the resolution step\<close>

lemma match_rca_cases:
  "match_rca b rca = (''Under analysis'', 50, ''Rule-based default'') \<or>
   (\<exists>r. r \<in> set rca \<and> contains (lower r) b \<and>
        match_rca b rca = (r, 90, ''Matched existing RCA: '' @ r))"
  by (induction rca) auto

lemma match_rca_none:
  "(\<And>r. r \<in> set rca \<Longrightarrow> \<not> contains (lower r) b) \<Longrightarrow>
   match_rca b rca = (''Under analysis'', 50, ''Rule-based default'')"
  by (induction rca) auto

lemma resolve_rca_cases:
  "(\<exists>ph. resolve_rca b rca wn = (ph, 60, ''New RCA created from work notes'')) \<or>
   (\<exists>r. r \<in> set rca \<and> resolve_rca b rca wn = (r, 90, ''Matched existing RCA: '' @ r))"
proof (cases "fst (match_rca b rca) = ''Under analysis''")
  case True
  then show ?thesis
    by (auto simp: resolve_rca_def Let_def split: prod.splits)
next
  case False
  with match_rca_cases [of b rca] show ?thesis
    by (auto simp: resolve_rca_def)
qed

lemma decide_cases:
  assumes "decide b rca cats wn = Inr (cat, ph, conf, reason)"
  shows "(conf = 70 \<and> reason = ''AI fallback used'' \<and>
            ai_fallback_suggest b cats = Inr (cat, ph)) \<or>
         (conf = 90 \<and> reason = ''Matched existing RCA: '' @ ph \<and> ph \<in> set rca \<and>
            cat = rule_category b)"
  using assms resolve_rca_cases [of b rca wn]
  by (auto simp: decide_def Let_def split: sum.splits prod.splits if_splits)

lemma process_ticket_Some:
  assumes "process_ticket t rca offs cats = Inr (Some cause, c, reason)"
  shows "\<exists>so ec sd d wn cat ph conf.
           t ''service_offering'' = Some so \<and> t ''existing_cause'' = Some ec \<and>
           t ''short_description'' = Some sd \<and> t ''description'' = Some d \<and>
           t ''work_notes'' = Some wn \<and> \<not> is_valid_cause ec offs cats \<and>
           decide (text_blob_of sd d wn) rca cats wn = Inr (cat, ph, conf, reason) \<and>
           cause = compose_cause so cat ph \<and> c = Some conf"
  using assms
  by (auto simp: process_ticket_def row_get_def
           split: sum.splits option.splits if_splits prod.splits)

section \<open>The confidence of a processed ticket\<close>

text \<open>
  Claim C10. Whenever process_ticket returns a cause (outcome Processed), the confidence
  it returns is 70 or 90: the scores 50 and 60 of the resolution step are below the
  threshold 75 and are replaced by the fallback's 70, so the reasons
  "Rule-based default" and "New RCA created from work notes" are never returned.
\<close>

theorem processed_confidence_70_or_90:
  assumes "process_ticket t rca offs cats = Inr (Some cause, c, reason)"
  shows "(c = Some 70 \<or> c = Some 90) \<and> reason \<noteq> ''Rule-based default'' \<and>
         reason \<noteq> ''New RCA created from work notes''"
proof -
  from process_ticket_Some [OF assms] obtain b wn cat ph conf where
    d: "decide b rca cats wn = Inr (cat, ph, conf, reason)" and c: "c = Some conf"
    by blast
  from decide_cases [OF d] c show ?thesis by auto
qed

theorem processed_confidence_70_or_90_witness:
  "process_ticket login_ticket [''Disk failure''] [''Laptop''] [''Configuration issue'']
     = Inr (Some ''Laptop - Configuration issue - Resolved after configuration check'',
            Some 70, ''AI fallback used'') \<and>
   ((Some 70 = Some (70::int) \<or> Some 70 = Some (90::int)) \<and>
    ''AI fallback used'' \<noteq> ''Rule-based default'' \<and>
    ''AI fallback used'' \<noteq> ''New RCA created from work notes'')"
proof -
  have h: "process_ticket login_ticket [''Disk failure''] [''Laptop''] [''Configuration issue'']
     = Inr (Some ''Laptop - Configuration issue - Resolved after configuration check'',
            Some 70, ''AI fallback used'')"
    by code_simp
  show ?thesis
    using h processed_confidence_70_or_90 [OF h] by simp
qed

section \<open>Facts about the fallback and the orchestration\<close>

lemma ai_fallback_default:
  assumes "\<not> contains ''resolved'' b" "\<not> contains ''fixed'' b"
          "\<not> contains ''working'' b" "\<not> contains ''no issue'' b"
  shows "ai_fallback_suggest b cats =
           (case cats of [] \<Rightarrow> Inl IndexError
            | c # _ \<Rightarrow> Inr (c, ''Root cause under investigation''))"
  using assms by (simp add: ai_fallback_suggest_def)

lemma ai_fallback_nonempty:
  "cats \<noteq> [] \<Longrightarrow> \<exists>c r. ai_fallback_suggest b cats = Inr (c, r)"
  by (cases cats) (auto simp: ai_fallback_suggest_def)

lemma is_valid_cause_no_categories: "\<not> is_valid_cause c offs []"
  by (auto simp: is_valid_cause_def split: list.splits)

lemma process_ticket_unfold:
  assumes "t ''service_offering'' = Some so" "t ''existing_cause'' = Some ec"
          "t ''short_description'' = Some sd" "t ''description'' = Some d"
          "t ''work_notes'' = Some wn"
  shows "process_ticket t rca offs cats =
           (if is_valid_cause ec offs cats then Inr (None, None, ''Skipped (already valid)'')
            else (case decide (text_blob_of sd d wn) rca cats wn of
                    Inl e \<Rightarrow> Inl e
                  | Inr (category, matched_rca, confidence, reason) \<Rightarrow>
                      Inr (Some (compose_cause so category matched_rca),
                           Some confidence, reason)))"
  using assms by (simp add: process_ticket_def row_get_def)

lemma decide_low:
  assumes "fst (snd (resolve_rca b rca wn)) < 75"
  shows "decide b rca cats wn =
           (case ai_fallback_suggest b cats of
              Inl e \<Rightarrow> Inl e
            | Inr (c, r) \<Rightarrow> Inr (c, r, 70, ''AI fallback used''))"
  using assms
  by (cases "resolve_rca b rca wn") (auto simp: decide_def split: sum.splits)

lemma process_ticket_low:
  assumes "t ''service_offering'' = Some so" "t ''existing_cause'' = Some ec"
          "t ''short_description'' = Some sd" "t ''description'' = Some d"
          "t ''work_notes'' = Some wn"
      and "\<not> is_valid_cause ec offs cats"
      and "fst (snd (resolve_rca (text_blob_of sd d wn) rca wn)) < 75"
  shows "process_ticket t rca offs cats =
           (case ai_fallback_suggest (text_blob_of sd d wn) cats of
              Inl e \<Rightarrow> Inl e
            | Inr (c, r) \<Rightarrow>
                Inr (Some (py_str so @ '' - '' @ c @ '' - '' @ r), Some 70,
                     ''AI fallback used''))"
  using assms(6,7)
  by (simp add: process_ticket_unfold [OF assms(1-5)] decide_low compose_cause_def
           split: sum.splits)

lemma ticket_fields:
  "ticket so ec sd d wn ''service_offering'' = Some so"
  "ticket so ec sd d wn ''existing_cause'' = Some ec"
  "ticket so ec sd d wn ''short_description'' = Some sd"
  "ticket so ec sd d wn ''description'' = Some d"
  "ticket so ec sd d wn ''work_notes'' = Some wn"
  by (simp_all add: ticket_def)

section \<open>An empty category list\<close>

text \<open>
  Claim C7. When the list of canonical categories is empty and ai_fallback_suggest reaches
  its default branch (the text has none of "resolved", "fixed", "working", "no issue"),
  the call fails: \<open>canonical_categories[0]\<close> raises IndexError, no category is produced,
  and the error reaches the caller of process_ticket (and of the write-back, which then
  writes nothing). With a non-empty list the fallback returns a pair for every text.
\<close>

theorem empty_categories_configuration_error:
  assumes "t ''service_offering'' = Some so" "t ''existing_cause'' = Some ec"
          "t ''short_description'' = Some sd" "t ''description'' = Some d"
          "t ''work_notes'' = Some wn"
      and "b = text_blob_of sd d wn"
      and "\<not> contains ''resolved'' b" "\<not> contains ''fixed'' b"
          "\<not> contains ''working'' b" "\<not> contains ''no issue'' b"
  shows "ai_fallback_suggest b [] = Inl IndexError \<and>
         (fst (snd (resolve_rca b rca wn)) < 75 \<longrightarrow>
            process_ticket t rca offs [] = Inl IndexError \<and>
            run_ticket t rca offs [] = Inl IndexError) \<and>
         (cats \<noteq> [] \<longrightarrow> (\<exists>c r. ai_fallback_suggest b' cats = Inr (c, r)))"
proof -
  have e: "ai_fallback_suggest b [] = Inl IndexError"
    using assms(7-10) by (simp add: ai_fallback_default)
  have "fst (snd (resolve_rca b rca wn)) < 75 \<longrightarrow>
           process_ticket t rca offs [] = Inl IndexError \<and>
           run_ticket t rca offs [] = Inl IndexError"
    using e assms(6)
    by (simp add: run_ticket_def process_ticket_unfold [OF assms(1-5)]
          is_valid_cause_no_categories decide_low)
  with e show ?thesis
    by (simp add: ai_fallback_nonempty)
qed

theorem empty_categories_configuration_error_witness:
  "ai_fallback_suggest ''paper jam tray 2 jammed cleared tray'' [] = Inl IndexError \<and>
   process_ticket printer_ticket [] [''Printer''] [] = Inl IndexError \<and>
   run_ticket printer_ticket [] [''Printer''] [] = Inl IndexError \<and>
   (\<exists>c r. ai_fallback_suggest ''paper jam tray 2 jammed cleared tray''
             [''Hardware issue''] = Inr (c, r))"
proof -
  let ?b = "''paper jam tray 2 jammed cleared tray''"
  have b: "?b = text_blob_of (PStr ''Paper jam'') (PStr ''Tray 2 jammed'') (PStr ''Cleared tray'')"
    by code_simp
  have k: "\<not> contains ''resolved'' ?b" "\<not> contains ''fixed'' ?b"
          "\<not> contains ''working'' ?b" "\<not> contains ''no issue'' ?b"
    by code_simp+
  have c: "fst (snd (resolve_rca ?b [] (PStr ''Cleared tray''))) < 75"
    by code_simp
  have n: "[''Hardware issue''] \<noteq> []" by simp
  from empty_categories_configuration_error
         [of printer_ticket, unfolded printer_ticket_def, OF ticket_fields b k,
          folded printer_ticket_def, of "[]" "[''Printer'']" "[''Hardware issue'']" ?b]
       c n
  show ?thesis by blast
qed

section \<open>The fallback overrides the rules\<close>

text \<open>
  Claim C2. For a ticket that is not skipped, whenever the resolution step ends with a
  confidence below 75, what process_ticket returns is decided by ai_fallback_suggest
  alone: the confidence is 70, the reason is "AI fallback used", and the category and the
  phrase of the composed cause are the pair the fallback returned; the category of the
  keyword rules and the phrase of the resolution step do not occur in the result. (When
  the fallback raises instead of returning a pair, process_ticket raises the same error.)
\<close>

theorem fallback_override:
  assumes "t ''service_offering'' = Some so" "t ''existing_cause'' = Some ec"
          "t ''short_description'' = Some sd" "t ''description'' = Some d"
          "t ''work_notes'' = Some wn"
      and "\<not> is_valid_cause ec offs cats"
      and "fst (snd (resolve_rca (text_blob_of sd d wn) rca wn)) < 75"
  shows "process_ticket t rca offs cats =
           (case ai_fallback_suggest (text_blob_of sd d wn) cats of
              Inl e \<Rightarrow> Inl e
            | Inr (c, r) \<Rightarrow>
                Inr (Some (py_str so @ '' - '' @ c @ '' - '' @ r), Some 70,
                     ''AI fallback used''))"
  by (rule process_ticket_low [OF assms])

theorem fallback_override_witness:
  "\<not> is_valid_cause (PStr []) [''Printer''] [''Hardware issue''] \<and>
   fst (snd (resolve_rca (text_blob_of (PStr ''Paper jam'') (PStr ''Tray 2 jammed'')
        (PStr ''Cleared tray'')) [''Disk failure''] (PStr ''Cleared tray''))) < 75 \<and>
   rule_category (text_blob_of (PStr ''Paper jam'') (PStr ''Tray 2 jammed'')
        (PStr ''Cleared tray'')) = ''Configuration issue'' \<and>
   process_ticket printer_ticket [''Disk failure''] [''Printer''] [''Hardware issue''] =
     Inr (Some ''Printer - Hardware issue - Root cause under investigation'', Some 70,
          ''AI fallback used'')"
proof -
  have v: "\<not> is_valid_cause (PStr []) [''Printer''] [''Hardware issue'']"
    by code_simp
  have c: "fst (snd (resolve_rca (text_blob_of (PStr ''Paper jam'') (PStr ''Tray 2 jammed'')
        (PStr ''Cleared tray'')) [''Disk failure''] (PStr ''Cleared tray''))) < 75"
    by code_simp
  have r: "rule_category (text_blob_of (PStr ''Paper jam'') (PStr ''Tray 2 jammed'')
        (PStr ''Cleared tray'')) = ''Configuration issue''"
    by code_simp
  have a: "ai_fallback_suggest (text_blob_of (PStr ''Paper jam'') (PStr ''Tray 2 jammed'')
        (PStr ''Cleared tray'')) [''Hardware issue''] =
        Inr (''Hardware issue'', ''Root cause under investigation'')"
    by code_simp
  have s: "py_str (PStr ''Printer'') = ''Printer''"
    by (simp add: py_str_def)
  from fallback_override
         [of printer_ticket, unfolded printer_ticket_def, OF ticket_fields v c,
          folded printer_ticket_def]
  have "process_ticket printer_ticket [''Disk failure''] [''Printer''] [''Hardware issue''] =
     Inr (Some ''Printer - Hardware issue - Root cause under investigation'', Some 70,
          ''AI fallback used'')"
    by (simp add: a s)
  with v c r show ?thesis by blast
qed

section \<open>Skipping a ticket whose cause is valid\<close>

text \<open>
  Claim C6. When the existing cause of a ticket is valid for the current reference lists,
  process_ticket returns no cause, no confidence and the reason text
  "Skipped (already valid)", and the caller's write-back leaves the row as it was; the
  write-back changes a row only when a cause was returned.
\<close>

theorem skip_outcome_and_frame:
  assumes "t ''service_offering'' = Some so" "t ''existing_cause'' = Some ec"
      and "is_valid_cause ec offs cats"
  shows "process_ticket t rca offs cats = Inr (None, None, ''Skipped (already valid)'') \<and>
         run_ticket t rca offs cats = Inr (t, None, None, ''Skipped (already valid)'') \<and>
         (\<forall>u u' out. run_ticket u rca offs cats = Inr (u', out) \<and> u' \<noteq> u
             \<longrightarrow> (\<exists>cause. fst out = Some cause))"
proof -
  have p: "process_ticket t rca offs cats = Inr (None, None, ''Skipped (already valid)'')"
    using assms by (simp add: process_ticket_def row_get_def)
  then have r: "run_ticket t rca offs cats = Inr (t, None, None, ''Skipped (already valid)'')"
    by (simp add: run_ticket_def write_back_def)
  have "\<exists>cause. fst out = Some cause"
    if "run_ticket u rca offs cats = Inr (u', out)" "u' \<noteq> u" for u u' out
    using that
    by (cases out; cases "fst out")
       (auto simp: run_ticket_def write_back_def split: sum.splits if_splits)
  with p r show ?thesis by blast
qed

theorem skip_outcome_and_frame_witness:
  "is_valid_cause
     (PStr ''Laptop - Configuration issue - Resolved after configuration check'')
     [''Laptop''] [''Configuration issue''] \<and>
   process_ticket valid_ticket [] [''Laptop''] [''Configuration issue''] =
     Inr (None, None, ''Skipped (already valid)'') \<and>
   run_ticket valid_ticket [] [''Laptop''] [''Configuration issue''] =
     Inr (valid_ticket, None, None, ''Skipped (already valid)'')"
proof -
  have v: "is_valid_cause
     (PStr ''Laptop - Configuration issue - Resolved after configuration check'')
     [''Laptop''] [''Configuration issue'']"
    by code_simp
  from skip_outcome_and_frame
         [of valid_ticket, unfolded valid_ticket_def, OF ticket_fields(1,2) v,
          folded valid_ticket_def, of "[]"]
       v
  show ?thesis by blast
qed

section \<open>The end-to-end example\<close>

lemma login_blob:
  "text_blob_of (PStr []) (PStr ''Unable to login, access denied'')
     (PStr ''issue resolved after password reset'') =
   '' unable to login, access denied issue resolved after password reset''"
  by code_simp

text \<open>
  Claim C8. The ticket with service offering "Laptop", description
  "Unable to login, access denied", work notes "issue resolved after password reset",
  empty short description and empty existing cause, with a catalog none of whose phrases
  occurs in the text, gets the cause
  "Laptop - Configuration issue - Resolved after configuration check" with confidence 70
  and reason "AI fallback used"; the keyword rules had chosen "Access issue".
\<close>

theorem end_to_end_example:
  assumes "\<forall>r \<in> set rca. \<not> contains (lower r)
             (text_blob_of (PStr []) (PStr ''Unable to login, access denied'')
                (PStr ''issue resolved after password reset''))"
  shows "process_ticket login_ticket rca offs cats =
           Inr (Some ''Laptop - Configuration issue - Resolved after configuration check'',
                Some 70, ''AI fallback used'') \<and>
         rule_category (text_blob_of (PStr []) (PStr ''Unable to login, access denied'')
                (PStr ''issue resolved after password reset'')) = ''Access issue''"
proof -
  let ?b = "'' unable to login, access denied issue resolved after password reset''"
  have v: "\<not> is_valid_cause (PStr []) offs cats"
    by (simp add: is_valid_cause_def py_str_def strip_def)
  have m: "match_rca ?b rca = (''Under analysis'', 50, ''Rule-based default'')"
    using assms unfolding login_blob by (intro match_rca_none) blast
  have c: "fst (snd (resolve_rca (text_blob_of (PStr [])
             (PStr ''Unable to login, access denied'')
             (PStr ''issue resolved after password reset'')) rca
             (PStr ''issue resolved after password reset''))) < 75"
    by (simp add: login_blob resolve_rca_def m Let_def)
  have k: "contains ''resolved'' ?b"
    by code_simp
  have a: "ai_fallback_suggest ?b cats =
             Inr (''Configuration issue'', ''Resolved after configuration check'')"
    using k by (simp add: ai_fallback_suggest_def)
  have g: "rule_category ?b = ''Access issue''"
    by code_simp
  have "process_ticket login_ticket rca offs cats =
           Inr (Some ''Laptop - Configuration issue - Resolved after configuration check'',
                Some 70, ''AI fallback used'')"
    using process_ticket_low
            [of login_ticket, unfolded login_ticket_def, OF ticket_fields v c,
             folded login_ticket_def]
    by (simp add: login_blob a py_str_def)
  with g show ?thesis by (simp add: login_blob)
qed

theorem end_to_end_example_witness:
  "\<not> contains (lower ''Disk failure'')
       (text_blob_of (PStr []) (PStr ''Unable to login, access denied'')
          (PStr ''issue resolved after password reset'')) \<and>
   \<not> contains (lower ''Password expired'')
       (text_blob_of (PStr []) (PStr ''Unable to login, access denied'')
          (PStr ''issue resolved after password reset'')) \<and>
   process_ticket login_ticket [''Disk failure'', ''Password expired''] [''Laptop'']
       [''Access issue'', ''Configuration issue''] =
     Inr (Some ''Laptop - Configuration issue - Resolved after configuration check'',
          Some 70, ''AI fallback used'')"
proof -
  have h: "\<forall>r \<in> set [''Disk failure'', ''Password expired''].
      \<not> contains (lower r)
          (text_blob_of (PStr []) (PStr ''Unable to login, access denied'')
             (PStr ''issue resolved after password reset''))"
    by code_simp
  from end_to_end_example [OF h] h show ?thesis by simp
qed

section \<open>Facts about strip and the phrase made from the work notes\<close>

lemma length_lower: "length (lower s) = length s"
  by (simp add: lower_def)

lemma dropWhile_all: "(\<forall>x \<in> set (dropWhile P xs). P x) \<longleftrightarrow> dropWhile P xs = []"
proof
  assume a: "\<forall>x \<in> set (dropWhile P xs). P x"
  show "dropWhile P xs = []"
  proof (rule ccontr)
    assume n: "dropWhile P xs \<noteq> []"
    then have "\<not> P (hd (dropWhile P xs))" by (rule hd_dropWhile)
    moreover have "hd (dropWhile P xs) \<in> set (dropWhile P xs)" using n by simp
    ultimately show False using a by blast
  qed
next
  assume "dropWhile P xs = []"
  then show "\<forall>x \<in> set (dropWhile P xs). P x" by (auto dest: set_dropWhileD)
qed

lemma strip_eq_Nil: "strip s = [] \<longleftrightarrow> (\<forall>c \<in> set s. is_space c)"
  by (simp add: strip_def dropWhile_eq_Nil_conv dropWhile_all)

lemma length_strip_le: "length (strip s) \<le> length s"
proof -
  have "length (strip s) \<le> length (dropWhile is_space s)"
    unfolding strip_def by (simp add: length_dropWhile_le [of is_space "rev (dropWhile is_space s)", simplified])
  also have "\<dots> \<le> length s" by (rule length_dropWhile_le)
  finally show ?thesis .
qed

lemma resolve_rca_no_match:
  assumes "\<forall>r \<in> set rca. \<not> contains (lower r) b"
  shows "resolve_rca b rca wn =
           (take 50 (if strip (py_str wn) = [] \<or> lower (strip (py_str wn)) = ''nan''
                     then ''Root cause under investigation'' else strip (py_str wn)),
            60, ''New RCA created from work notes'')"
proof -
  have "match_rca b rca = (''Under analysis'', 50, ''Rule-based default'')"
    using assms by (intro match_rca_none) blast
  then show ?thesis
    by (simp add: resolve_rca_def Let_def)
qed

section \<open>Truncation of the work notes\<close>

text \<open>
  Claim C9, as the code has it. For every work-notes string of 80 characters whose trimmed
  form still has at least 50 characters, when no catalog phrase occurs in the text, the
  phrase of the resolution step is the first 50 characters of the trimmed string, and has
  exactly 50 characters.
\<close>

theorem work_notes_truncation:
  assumes "length wn = 80" and "50 \<le> length (strip wn)"
      and "\<forall>r \<in> set rca. \<not> contains (lower r) b"
  shows "resolve_rca b rca (PStr wn) =
           (take 50 (strip wn), 60, ''New RCA created from work notes'') \<and>
         length (fst (resolve_rca b rca (PStr wn))) = 50"
proof -
  have ne: "strip wn \<noteq> []"
    using assms(2) by auto
  have "length (lower (strip wn)) \<noteq> length ''nan''"
    using assms(2) by (simp add: length_lower)
  then have nn: "lower (strip wn) \<noteq> ''nan''"
    by metis
  show ?thesis
    using ne nn assms(2)
    by (simp add: resolve_rca_no_match [OF assms(3)] py_str_def)
qed

theorem work_notes_truncation_witness:
  "length long_notes = 80 \<and> 50 \<le> length (strip long_notes) \<and>
   \<not> contains (lower ''Disk failure'')
       (text_blob_of (PStr []) (PStr []) (PStr long_notes)) \<and>
   resolve_rca (text_blob_of (PStr []) (PStr []) (PStr long_notes)) [''Disk failure'']
       (PStr long_notes) =
     (''Replaced the failed power supply unit and confirme'', 60,
      ''New RCA created from work notes'') \<and>
   length (fst (resolve_rca (text_blob_of (PStr []) (PStr []) (PStr long_notes))
       [''Disk failure''] (PStr long_notes))) = 50"
proof -
  have l: "length long_notes = 80" by code_simp
  have s: "50 \<le> length (strip long_notes)" by code_simp
  have m: "\<forall>r \<in> set [''Disk failure'']. \<not> contains (lower r)
       (text_blob_of (PStr []) (PStr []) (PStr long_notes))"
    by code_simp
  have t: "take 50 (strip long_notes) = ''Replaced the failed power supply unit and confirme''"
    by code_simp
  from work_notes_truncation [OF l s m] l s m t show ?thesis by simp
qed

text \<open>
  The claim as stated, for every string of 80 characters, fails when trimming leaves fewer
  than 50 characters: a note of 15 characters padded to 80 with spaces gives a phrase of
  15 characters.
\<close>

theorem work_notes_truncation_counterexample:
  "length padded_notes = 80 \<and>
   match_rca (text_blob_of (PStr []) (PStr []) (PStr padded_notes)) [] =
     (''Under analysis'', 50, ''Rule-based default'') \<and>
   resolve_rca (text_blob_of (PStr []) (PStr []) (PStr padded_notes)) [] (PStr padded_notes) =
     (''Rebooted router'', 60, ''New RCA created from work notes'') \<and>
   length ''Rebooted router'' \<noteq> 50"
  by code_simp


section \<open>The phrase of the resolution step is not empty\<close>

text \<open>
  Claim C5, as the code has it. For every text, every work-notes cell and every catalog
  without an empty entry, the resolution step returns a phrase that is not empty; when no
  catalog phrase occurs in the text and the trimmed work notes are empty or read "nan",
  the phrase is "Root cause under investigation". The step has no failing branch.
\<close>

theorem resolver_nonempty_phrase:
  assumes "[] \<notin> set rca"
  shows "fst (resolve_rca b rca wn) \<noteq> [] \<and>
         ((\<forall>r \<in> set rca. \<not> contains (lower r) b) \<and>
          (strip (py_str wn) = [] \<or> lower (strip (py_str wn)) = ''nan'')
          \<longrightarrow> resolve_rca b rca wn =
                (''Root cause under investigation'', 60, ''New RCA created from work notes''))"
proof -
  have "fst (resolve_rca b rca wn) \<noteq> []"
  proof (cases "fst (match_rca b rca) = ''Under analysis''")
    case True
    then show ?thesis
      by (auto simp: resolve_rca_def Let_def split: prod.splits)
  next
    case False
    with match_rca_cases [of b rca] assms show ?thesis
      by (auto simp: resolve_rca_def)
  qed
  moreover have "resolve_rca b rca wn =
                (''Root cause under investigation'', 60, ''New RCA created from work notes'')"
    if "\<forall>r \<in> set rca. \<not> contains (lower r) b"
       "strip (py_str wn) = [] \<or> lower (strip (py_str wn)) = ''nan''"
    using that(2) by (auto simp: resolve_rca_no_match [OF that(1)])
  ultimately show ?thesis by blast
qed

theorem resolver_nonempty_phrase_witness:
  "[] \<notin> set [''Disk failure''] \<and>
   \<not> contains (lower ''Disk failure'')
       (text_blob_of (PStr ''Paper jam'') (PStr ''Tray 2 jammed'') PNaN) \<and>
   lower (strip (py_str PNaN)) = ''nan'' \<and>
   resolve_rca (text_blob_of (PStr ''Paper jam'') (PStr ''Tray 2 jammed'') PNaN)
       [''Disk failure''] PNaN =
     (''Root cause under investigation'', 60, ''New RCA created from work notes'')"
proof -
  have a: "[] \<notin> set [''Disk failure'']" by simp
  have m: "\<forall>r \<in> set [''Disk failure'']. \<not> contains (lower r)
       (text_blob_of (PStr ''Paper jam'') (PStr ''Tray 2 jammed'') PNaN)"
    by code_simp
  have n: "lower (strip (py_str PNaN)) = ''nan''" by code_simp
  from resolver_nonempty_phrase [OF a, of "text_blob_of (PStr ''Paper jam'') (PStr ''Tray 2 jammed'') PNaN" PNaN]
       m n a
  show ?thesis by simp
qed

text \<open>
  With an empty entry in the catalog the claim as stated fails: the empty string occurs in
  every text, so it is the match, and the phrase is empty with confidence 90.
\<close>

theorem resolver_nonempty_phrase_counterexample:
  "resolve_rca (text_blob_of (PStr ''Paper jam'') (PStr ''Tray 2 jammed'')
       (PStr ''Cleared tray'')) [[]] (PStr ''Cleared tray'') =
     ([], 90, ''Matched existing RCA: '') \<and>
   process_ticket printer_ticket [[]] [''Printer''] [''Configuration issue''] =
     Inr (Some ''Printer - Configuration issue - '', Some 90, ''Matched existing RCA: '')"
  by code_simp

section \<open>Facts about splitting on the separator\<close>

lemma hyphen_not_space: "\<not> is_space (CHR ''-'')"
  by code_simp

lemma split_on_blank:
  "\<forall>c \<in> set s. is_space c \<Longrightarrow> split_on '' - '' s = [s]"
proof (induction s)
  case Nil
  then show ?case by simp
next
  case (Cons x xs)
  have "\<not> prefix '' - '' (x # xs)"
  proof
    assume "prefix '' - '' (x # xs)"
    then have "CHR ''-'' \<in> set xs"
      by (auto simp: prefix_def)
    with Cons.prems hyphen_not_space show False by auto
  qed
  with Cons show ?case by simp
qed

lemma split_on_none:
  "\<not> contains '' - '' a \<Longrightarrow> split_on '' - '' a = [a]"
  by (induction a) auto

lemma split_on_first:
  "\<not> contains '' - '' a \<Longrightarrow> \<not> suffix '' -'' a \<Longrightarrow>
   split_on '' - '' (a @ '' - '' @ b) = a # split_on '' - '' b"
proof (induction a)
  case Nil
  then show ?case by simp
next
  case (Cons x xs)
  have n: "\<not> prefix '' - '' ((x # xs) @ '' - '' @ b)"
  proof (cases xs)
    case Nil
    then show ?thesis by simp
  next
    case c1: (Cons y ys)
    show ?thesis
    proof (cases ys)
      case Nil
      with c1 Cons.prems(2) show ?thesis by (auto simp: suffix_def)
    next
      case (Cons z zs)
      with c1 Cons.prems(1) show ?thesis by auto
    qed
  qed
  have "\<not> contains '' - '' xs" using Cons.prems(1) by simp
  moreover have "\<not> suffix '' -'' xs"
    using Cons.prems(2) by (auto simp: suffix_ConsI)
  ultimately have "split_on '' - '' (xs @ '' - '' @ b) = xs # split_on '' - '' b"
    by (rule Cons.IH)
  with n show ?case by simp
qed

lemma split_on_composed:
  assumes "\<not> contains '' - '' s" "\<not> suffix '' -'' s"
          "\<not> contains '' - '' cat" "\<not> suffix '' -'' cat" "\<not> contains '' - '' ph"
  shows "split_on '' - '' (s @ '' - '' @ cat @ '' - '' @ ph) = [s, cat, ph]"
  by (simp only: split_on_first [OF assms(1,2)] split_on_first [OF assms(3,4)]
        split_on_none [OF assms(5)])

lemma is_valid_cause_three_parts:
  assumes "split_on '' - '' s = [a, b, c]"
  shows "is_valid_cause (PStr s) offs cats \<longleftrightarrow>
           strip a \<in> set offs \<and> strip b \<in> set cats \<and> strip c \<noteq> []"
proof -
  have "strip s \<noteq> []"
  proof
    assume "strip s = []"
    then have "split_on '' - '' s = [s]"
      by (simp add: strip_eq_Nil split_on_blank)
    with assms show False by simp
  qed
  with assms show ?thesis
    by (simp add: is_valid_cause_def pd_isna_def py_str_def)
qed

section \<open>What the validator compares\<close>

text \<open>
  Claim C4, as the code has it. For every cause string that splits on " - " into exactly
  three parts, is_valid_cause trims each part (line 11) and tests the trimmed part 1
  against the service offerings, and the trimmed part 2 against the categories, by exact,
  case-sensitive equality with an entry; part 3 must be non-empty after trimming. So a
  cause whose service part carries surrounding whitespace is judged by its trimmed text.
\<close>

theorem validator_service_match_trimmed:
  assumes "split_on '' - '' s = [a, b, c]"
  shows "is_valid_cause (PStr s) offs cats \<longleftrightarrow>
           strip a \<in> set offs \<and> strip b \<in> set cats \<and> strip c \<noteq> []"
  by (rule is_valid_cause_three_parts [OF assms])

theorem validator_service_match_trimmed_witness:
  "split_on '' - '' ''laptop - Configuration issue - Disk replaced'' =
     [''laptop'', ''Configuration issue'', ''Disk replaced''] \<and>
   strip ''laptop'' \<notin> set [''Laptop''] \<and>
   \<not> is_valid_cause (PStr ''laptop - Configuration issue - Disk replaced'')
       [''Laptop''] [''Configuration issue'']"
proof -
  have h: "split_on '' - '' ''laptop - Configuration issue - Disk replaced'' =
     [''laptop'', ''Configuration issue'', ''Disk replaced'']"
    by code_simp
  have n: "strip ''laptop'' \<notin> set [''Laptop'']"
    by code_simp
  from validator_service_match_trimmed [OF h, of "[''Laptop'']" "[''Configuration issue'']"] h n
  show ?thesis by blast
qed

text \<open>
  The claim as stated says that no trimming happens beyond the split, so that a service
  part with surrounding whitespace absent from the reference entry is invalid. The code
  judges such a cause valid: the part "Laptop " is trimmed to the entry "Laptop".
\<close>

theorem validator_service_match_counterexample:
  "split_on '' - '' ''Laptop  - Configuration issue - Disk replaced'' =
     [''Laptop '', ''Configuration issue'', ''Disk replaced''] \<and>
   ''Laptop '' \<notin> set [''Laptop''] \<and>
   is_valid_cause (PStr ''Laptop  - Configuration issue - Disk replaced'')
     [''Laptop''] [''Configuration issue'']"
  by code_simp

section \<open>Validating a composed cause again\<close>

text \<open>
  Claim C1, as the code has it. Take a ticket that reaches composition and whose service
  offering is a text that is a member of the service offerings, has no surrounding
  whitespace, and neither contains " - " nor ends in " -"; let the composed category
  neither contain " - " nor end in " -", and the composed phrase not contain " - ". Then
  is_valid_cause on the composed cause is true if and only if the trimmed category is a
  member of the canonical categories and the phrase is non-empty after trimming.
\<close>

theorem composed_cause_revalidation:
  assumes "t ''service_offering'' = Some (PStr s)" "t ''existing_cause'' = Some ec"
          "t ''short_description'' = Some sd" "t ''description'' = Some d"
          "t ''work_notes'' = Some wn"
      and "\<not> is_valid_cause ec offs cats"
      and "decide (text_blob_of sd d wn) rca cats wn = Inr (cat, ph, conf, reason)"
      and "s \<in> set offs" and "strip s = s"
      and "\<not> contains '' - '' s" "\<not> suffix '' -'' s"
          "\<not> contains '' - '' cat" "\<not> suffix '' -'' cat"
          "\<not> contains '' - '' ph"
  shows "process_ticket t rca offs cats =
           Inr (Some (s @ '' - '' @ cat @ '' - '' @ ph), Some conf, reason) \<and>
         (is_valid_cause (PStr (s @ '' - '' @ cat @ '' - '' @ ph)) offs cats \<longleftrightarrow>
            strip cat \<in> set cats \<and> strip ph \<noteq> [])"
proof -
  have p: "process_ticket t rca offs cats =
           Inr (Some (s @ '' - '' @ cat @ '' - '' @ ph), Some conf, reason)"
    using assms(6,7)
    by (simp add: process_ticket_unfold [OF assms(1-5)] compose_cause_def py_str_def)
  have "split_on '' - '' (s @ '' - '' @ cat @ '' - '' @ ph) = [s, cat, ph]"
    by (rule split_on_composed [OF assms(10-14)])
  then have "is_valid_cause (PStr (s @ '' - '' @ cat @ '' - '' @ ph)) offs cats \<longleftrightarrow>
            strip s \<in> set offs \<and> strip cat \<in> set cats \<and> strip ph \<noteq> []"
    by (rule is_valid_cause_three_parts)
  with p assms(8,9) show ?thesis by simp
qed

theorem composed_cause_revalidation_witness:
  "process_ticket login_ticket [] [''Laptop''] [''Configuration issue''] =
     Inr (Some ''Laptop - Configuration issue - Resolved after configuration check'',
          Some 70, ''AI fallback used'') \<and>
   is_valid_cause (PStr ''Laptop - Configuration issue - Resolved after configuration check'')
     [''Laptop''] [''Configuration issue''] \<and>
   process_ticket login_ticket [] [''Laptop''] [''Access issue''] =
     Inr (Some ''Laptop - Configuration issue - Resolved after configuration check'',
          Some 70, ''AI fallback used'') \<and>
   \<not> is_valid_cause (PStr ''Laptop - Configuration issue - Resolved after configuration check'')
     [''Laptop''] [''Access issue'']"
proof -
  let ?sd = "PStr []" and ?d = "PStr ''Unable to login, access denied''"
  let ?wn = "PStr ''issue resolved after password reset''"
  have v: "\<not> is_valid_cause (PStr []) [''Laptop''] cats" for cats
    by (simp add: is_valid_cause_def py_str_def strip_def)
  have d: "decide (text_blob_of ?sd ?d ?wn) [] cats ?wn =
             Inr (''Configuration issue'', ''Resolved after configuration check'', 70,
                  ''AI fallback used'')" for cats
    unfolding login_blob
    by (simp add: decide_def resolve_rca_def Let_def ai_fallback_suggest_def)
  have m: "''Laptop'' \<in> set [''Laptop'']" by simp
  have s: "strip ''Laptop'' = ''Laptop''" by code_simp
  have c: "\<not> contains '' - '' ''Laptop''" "\<not> suffix '' -'' ''Laptop''"
          "\<not> contains '' - '' ''Configuration issue''" "\<not> suffix '' -'' ''Configuration issue''"
          "\<not> contains '' - '' ''Resolved after configuration check''"
    by code_simp+
  have y: "strip ''Configuration issue'' \<in> set [''Configuration issue'']"
    by code_simp
  have n: "strip ''Configuration issue'' \<notin> set [''Access issue'']"
    by code_simp
  have e: "strip ''Resolved after configuration check'' \<noteq> []"
    by code_simp
  note th = composed_cause_revalidation
         [of login_ticket, unfolded login_ticket_def, OF ticket_fields v d m s c,
          folded login_ticket_def]
  from th [of "[''Configuration issue'']"] th [of "[''Access issue'']"] y n e
  show ?thesis by simp
qed

text \<open>
  Without these conditions the claim as stated fails. A service offering that contains the
  separator makes the composed cause split into four parts; a service offering that ends
  in a space is trimmed by the validator and no longer equals its reference entry. In both
  cases the category is canonical and the phrase is non-empty, yet the cause is invalid.
\<close>

theorem composed_cause_revalidation_counterexample:
  "process_ticket mail_ticket [] [''Email - Outlook''] [''Configuration issue''] =
     Inr (Some ''Email - Outlook - Configuration issue - Resolved after configuration check'',
          Some 70, ''AI fallback used'') \<and>
   ''Email - Outlook'' \<in> set [''Email - Outlook''] \<and>
   ''Configuration issue'' \<in> set [''Configuration issue''] \<and>
   strip ''Resolved after configuration check'' \<noteq> [] \<and>
   \<not> is_valid_cause
       (PStr ''Email - Outlook - Configuration issue - Resolved after configuration check'')
       [''Email - Outlook''] [''Configuration issue''] \<and>
   process_ticket padded_ticket [] [''Laptop ''] [''Configuration issue''] =
     Inr (Some ''Laptop  - Configuration issue - Resolved after configuration check'',
          Some 70, ''AI fallback used'') \<and>
   ''Laptop '' \<in> set [''Laptop ''] \<and>
   \<not> is_valid_cause
       (PStr ''Laptop  - Configuration issue - Resolved after configuration check'')
       [''Laptop ''] [''Configuration issue'']"
  by code_simp

section \<open>Missing free-text cells\<close>

text \<open>
  Claim C3 says that a missing free-text field counts as the empty string. In the code
  \<open>str\<close> turns the missing value NaN into the text "nan", which the text blob then
  contains: with the catalog phrase "NA" the ticket with a missing short description is
  matched (confidence 90), while the same ticket with an empty short description is not
  and goes to the fallback. Only the phrase made from the work notes (line 84) treats
  "nan" as empty. A row without the column raises KeyError.
\<close>

theorem missing_text_is_nan:
  "text_blob_of PNaN (PStr ''Printer jam'') (PStr ''Replaced toner'') =
     ''nan printer jam replaced toner'' \<and>
   text_blob_of (PStr []) (PStr ''Printer jam'') (PStr ''Replaced toner'') =
     '' printer jam replaced toner'' \<and>
   process_ticket nan_ticket [''NA''] [''Laptop''] [''Hardware issue''] =
     Inr (Some ''Laptop - Configuration issue - NA'', Some 90, ''Matched existing RCA: NA'') \<and>
   process_ticket blank_ticket [''NA''] [''Laptop''] [''Hardware issue''] =
     Inr (Some ''Laptop - Hardware issue - Root cause under investigation'', Some 70,
          ''AI fallback used'') \<and>
   process_ticket short_row [''NA''] [''Laptop''] [''Hardware issue''] =
     Inl (KeyError ''work_notes'')"
  by code_simp

end
